theory Spec2Isabelle
  imports Main
begin

section \<open>User profile management: validation and request handlers of \<open>app.py\<close>\<close>

text \<open>
  The development embeds \<open>src/app.py\<close>: the validator \<open>validate_user_input\<close> and
  the handlers \<open>index\<close>, \<open>register\<close>, \<open>view_profile\<close>, \<open>edit_profile\<close> and
  \<open>delete_profile\<close>.

  A Python \<open>str\<close> is a \<open>string\<close>; every \<open>char\<close> stands for one code point, so the
  model covers the code points below 256. A \<open>dict\<close> from strings to strings is a map
  \<open>string \<rightharpoonup> string\<close>. Exceptions are values of the type \<open>exn\<close>.
\<close>

subsection \<open>Python string operations used by the validator\<close>

text \<open>
  \<open>str.isspace\<close> for one character, on the code points below 256: the controls
  9 to 13 and 28 to 31, the space, and the code points 133 and 160.
\<close>

definition isspace :: "char \<Rightarrow> bool" where
  "isspace c =
     (let n = (of_char c :: nat)
      in (9 \<le> n \<and> n \<le> 13) \<or> (28 \<le> n \<and> n \<le> 32) \<or> n = 133 \<or> n = 160)"

text \<open>\<open>s.strip()\<close>: whitespace removed at both ends.\<close>

definition strip :: "string \<Rightarrow> string" where
  "strip s = rev (dropWhile isspace (rev (dropWhile isspace s)))"

text \<open>\<open>s.replace(old, new)\<close> for one-character \<open>old\<close> and \<open>new\<close>.\<close>

definition replace :: "string \<Rightarrow> char \<Rightarrow> char \<Rightarrow> string" where
  "replace s old new = map (\<lambda>c. if c = old then new else c) s"

text \<open>
  \<open>s.split(sep)\<close> for a one-character separator: the pieces between the
  occurrences of \<open>sep\<close>, one more than there are occurrences.
\<close>

fun split :: "string \<Rightarrow> char \<Rightarrow> string list" where
  "split [] sep = [[]]"
| "split (c # cs) sep =
     (if c = sep then [] # split cs sep
      else (case split cs sep of
              [] \<Rightarrow> [[c]]
            | p # ps \<Rightarrow> (c # p) # ps))"

datatype exn = KeyError string | IndexError | OverflowError

text \<open>\<open>xs[i]\<close> for a non-negative index: \<open>IndexError\<close> out of range.\<close>

definition item :: "'a list \<Rightarrow> nat \<Rightarrow> exn + 'a" where
  "item xs i = (if i < length xs then Inr (xs ! i) else Inl IndexError)"

subsection \<open>The validator\<close>

definition required_fields :: "string list" where
  "required_fields = [''username'', ''email'', ''first_name'', ''last_name'']"

text \<open>The message \<open>f"Field '{field.replace('_', ' ')}' is required."\<close>.\<close>

definition required_message :: "string \<Rightarrow> string" where
  "required_message field =
     ''Field '' @ [CHR 0x27] @ replace field (CHR ''_'') (CHR '' '') @ [CHR 0x27] @ '' is required.''"

text \<open>
  The loop over \<open>required_fields\<close>: \<open>Some r\<close> is the early \<open>return r\<close> of the loop
  body, \<open>None\<close> is the loop running to its end.
\<close>

fun check_required :: "string list \<Rightarrow> (string \<rightharpoonup> string) \<Rightarrow> (bool \<times> string) option" where
  "check_required [] data = None"
| "check_required (field # fields) data =
     (case data field of
        None \<Rightarrow> Some (False, required_message field)
      | Some v \<Rightarrow>
          if strip v = [] then Some (False, required_message field)
          else check_required fields data)"

text \<open>\<open>data[key]\<close>: \<open>KeyError\<close> when the key is absent.\<close>

definition getitem :: "(string \<rightharpoonup> string) \<Rightarrow> string \<Rightarrow> exn + string" where
  "getitem data key = (case data key of None \<Rightarrow> Inl (KeyError key) | Some v \<Rightarrow> Inr v)"

text \<open>
  The condition of the email check,
  \<open>'@' not in data['email'] or '.' not in data['email'].split('@')[1]\<close>,
  on the value \<open>em\<close> of \<open>data['email']\<close>. The \<open>or\<close> evaluates its second operand
  only when the first is false.
\<close>

definition email_check :: "string \<Rightarrow> exn + bool" where
  "email_check em =
     (if CHR ''@'' \<notin> set em then Inr True
      else (case item (split em (CHR ''@'')) 1 of
              Inl e \<Rightarrow> Inl e
            | Inr seg \<Rightarrow> Inr (CHR ''.'' \<notin> set seg)))"

definition validate_user_input :: "(string \<rightharpoonup> string) \<Rightarrow> exn + (bool \<times> string)" where
  "validate_user_input data =
     (case check_required required_fields data of
        Some r \<Rightarrow> Inr r
      | None \<Rightarrow>
         (case getitem data ''email'' of
            Inl e \<Rightarrow> Inl e
          | Inr em \<Rightarrow>
             (case email_check em of
                Inl e \<Rightarrow> Inl e
              | Inr True \<Rightarrow> Inr (False, ''Please enter a valid email address.'')
              | Inr False \<Rightarrow>
                 (case getitem data ''username'' of
                    Inl e \<Rightarrow> Inl e
                  | Inr un \<Rightarrow>
                      if length (strip un) < 3
                      then Inr (False, ''Username must be at least 3 characters long.'')
                      else Inr (True, '''')))))"

subsection \<open>The table of users and the database session\<close>

text \<open>
  A row of the table \<open>User\<close>. The column \<open>id\<close> is the field \<open>id'\<close>.
\<close>

record user =
  id' :: int
  username :: string
  email :: string
  first_name :: string
  last_name :: string
  bio :: string

text \<open>
  The table is the list of its rows in storage order. The handlers reach it through the
  session of Flask-SQLAlchemy, which is not code of this repository; the model keeps
  what the handlers rely on. A session holds the committed table and the changes the
  handler has registered in it and that no commit has written yet: a new object, new
  attribute values of a loaded object, a deletion. \<open>commit\<close> writes the pending changes
  in one transaction, or raises, writes nothing and leaves the session as it is, the
  changes still registered. \<open>rollback\<close> drops the pending changes of a session.
  Whether a commit raises is decided outside the program (a constraint of the store, the
  disk, a lock), so it is the parameter \<open>fault\<close>: \<open>None\<close> when the commit goes through,
  \<open>Some e\<close> when it raises an exception \<open>ex\<close> with \<open>str(ex) = e\<close>.
\<close>

datatype change =
    Insert string string string string string
  | Update int string string string string string
  | Delete int

record session =
  table :: "user list"
  pending :: "change list"

text \<open>
  The key of a new row, as SQLite gives it to an integer primary key: one more than the
  largest key in use, and 1 in an empty table.
\<close>

definition fresh_id :: "user list \<Rightarrow> int" where
  "fresh_id t = (case t of [] \<Rightarrow> 1 | u # us \<Rightarrow> fold max (map id' us) (id' u) + 1)"

text \<open>
  One pending change written to the table: \<open>INSERT\<close>, \<open>UPDATE ... WHERE id = i\<close> and
  \<open>DELETE ... WHERE id = i\<close>.
\<close>

fun flush :: "change \<Rightarrow> user list \<Rightarrow> user list" where
  "flush (Insert un em fn ln b) t =
     t @ [\<lparr>id' = fresh_id t, username = un, email = em, first_name = fn, last_name = ln, bio = b\<rparr>]"
| "flush (Update i un em fn ln b) t =
     map (\<lambda>u. if id' u = i
               then u\<lparr>username := un, email := em, first_name := fn, last_name := ln, bio := b\<rparr>
               else u) t"
| "flush (Delete i) t = filter (\<lambda>u. id' u \<noteq> i) t"

text \<open>The session of a request, when the request starts: no change is pending.\<close>

definition begin_session :: "user list \<Rightarrow> session" where
  "begin_session t = \<lparr>table = t, pending = []\<rparr>"

definition register_change :: "change \<Rightarrow> session \<Rightarrow> session" where
  "register_change c s = s\<lparr>pending := pending s @ [c]\<rparr>"

text \<open>
  \<open>db.session.commit()\<close>: \<open>Inr\<close> the session after the commit, \<open>Inl\<close> the text of the
  exception and the session as the failed commit leaves it.
\<close>

definition commit :: "string option \<Rightarrow> session \<Rightarrow> (string \<times> session) + session" where
  "commit fault s =
     (case fault of
        Some e \<Rightarrow> Inl (e, s)
      | None \<Rightarrow> Inr \<lparr>table = fold flush (pending s) (table s), pending = []\<rparr>)"

text \<open>\<open>db.session.rollback()\<close>.\<close>

definition rollback :: "session \<Rightarrow> session" where
  "rollback s = s\<lparr>pending := []\<rparr>"

text \<open>
  The attributes of a loaded object as the session holds them: those of its row, with
  the pending assignments to the object applied.
\<close>

fun assign :: "change \<Rightarrow> user \<Rightarrow> user" where
  "assign (Update i un em fn ln b) u =
     (if id' u = i
      then u\<lparr>username := un, email := em, first_name := fn, last_name := ln, bio := b\<rparr>
      else u)"
| "assign (Insert un em fn ln b) u = u"
| "assign (Delete i) u = u"

definition attributes :: "session \<Rightarrow> user \<Rightarrow> user" where
  "attributes s u = fold assign (pending s) u"

text \<open>
  The integers the store takes as a parameter of a query: those of 64 bits with a sign.
  The driver raises \<open>OverflowError\<close> at any other.
\<close>

definition int64 :: "int \<Rightarrow> bool" where
  "int64 i = (- 9223372036854775808 \<le> i \<and> i \<le> 9223372036854775807)"

text \<open>
  \<open>User.query.get(user_id)\<close>, \<open>User.query.filter_by(username=un).first()\<close> and
  \<open>User.query.filter_by(email=em).first()\<close>; \<open>None\<close> is Python's \<open>None\<close>. The store
  compares strings character by character. The route \<open><int:user_id>\<close> takes every
  non-negative integer, so \<open>query_get\<close> can be given an id that the store does not take.
\<close>

definition query_get :: "user list \<Rightarrow> int \<Rightarrow> exn + user option" where
  "query_get t i = (if int64 i then Inr (find (\<lambda>u. id' u = i) t) else Inl OverflowError)"

definition filter_by_username :: "user list \<Rightarrow> string \<Rightarrow> user option" where
  "filter_by_username t un = find (\<lambda>u. username u = un) t"

definition filter_by_email :: "user list \<Rightarrow> string \<Rightarrow> user option" where
  "filter_by_email t em = find (\<lambda>u. email u = em) t"

subsection \<open>The request handlers\<close>

text \<open>
  A handler takes the table and the request. It returns the session as it leaves it (the
  table after the request and the changes still pending), the messages it flashed (text
  and category, in order) and its response. \<open>Uncaught e\<close> is an exception that leaves the
  handler: the lookups by id stand outside every \<open>try\<close>.
\<close>

datatype http_method = GET | POST

datatype response =
    Render_index "user list"
  | Render_register "(string \<rightharpoonup> string) option"
  | Render_profile user
  | Render_edit_profile user "(string \<rightharpoonup> string) option"
  | Redirect_index
  | Redirect_view_profile int
  | Uncaught exn

type_synonym outcome = "session \<times> (string \<times> string) list \<times> response"

text \<open>\<open>request.form.get(key, '')\<close>.\<close>

definition form_get :: "(string \<rightharpoonup> string) \<Rightarrow> string \<Rightarrow> string" where
  "form_get form key = (case form key of None \<Rightarrow> [] | Some v \<Rightarrow> v)"

text \<open>
  The dictionary \<open>form_data\<close> that \<open>register\<close> and \<open>edit_profile\<close> build from the form.
  Where the handlers read \<open>form_data['username']\<close> and the other four keys back, the
  model writes the value the dictionary was built with, \<open>form_get form ''username''\<close>.
\<close>

definition form_data :: "(string \<rightharpoonup> string) \<Rightarrow> (string \<rightharpoonup> string)" where
  "form_data form =
     [''username'' \<mapsto> form_get form ''username'',
      ''email'' \<mapsto> form_get form ''email'',
      ''first_name'' \<mapsto> form_get form ''first_name'',
      ''last_name'' \<mapsto> form_get form ''last_name'',
      ''bio'' \<mapsto> form_get form ''bio'']"

definition index :: "user list \<Rightarrow> outcome" where
  "index t = (begin_session t, [], Render_index t)"

definition register :: "string option \<Rightarrow> user list \<Rightarrow> http_method \<Rightarrow> (string \<rightharpoonup> string) \<Rightarrow> outcome" where
  "register fault t m form =
     (let s0 = begin_session t
      in case m of
        GET \<Rightarrow> (s0, [], Render_register None)
      | POST \<Rightarrow>
         (let un = form_get form ''username''; em = form_get form ''email'';
              fn = form_get form ''first_name''; ln = form_get form ''last_name'';
              b = form_get form ''bio''
          in case validate_user_input (form_data form) of
               Inl e \<Rightarrow> (s0, [], Uncaught e)
             | Inr (is_valid, error_msg) \<Rightarrow>
                 if \<not> is_valid
                 then (s0, [(error_msg, ''error'')], Render_register (Some (form_data form)))
                 else if filter_by_username t un \<noteq> None
                 then (s0, [(''Username already exists. Please choose a different username.'',
                             ''error'')],
                       Render_register (Some (form_data form)))
                 else if filter_by_email t em \<noteq> None
                 then (s0, [(''Email already registered. Please use a different email.'',
                             ''error'')],
                       Render_register (Some (form_data form)))
                 else
                   (case commit fault (register_change (Insert un em fn ln b) s0) of
                      Inr s \<Rightarrow>
                        (s, [(''User '' @ un @ '' registered successfully!'', ''success'')],
                         Redirect_index)
                    | Inl (e, s) \<Rightarrow>
                        (rollback s,
                         [(''An error occurred during registration: '' @ e, ''error'')],
                         Render_register None))))"

definition view_profile :: "user list \<Rightarrow> int \<Rightarrow> outcome" where
  "view_profile t user_id =
     (let s0 = begin_session t
      in case query_get t user_id of
        Inl e \<Rightarrow> (s0, [], Uncaught e)
      | Inr None \<Rightarrow> (s0, [(''User not found.'', ''error'')], Redirect_index)
      | Inr (Some user) \<Rightarrow> (s0, [], Render_profile user))"

text \<open>
  In \<open>edit_profile\<close> the assignments to the attributes of \<open>user\<close> register one update
  of its row. The form after a failed commit is rendered with the attributes of \<open>user\<close>
  that the session holds after the rollback.
\<close>

definition edit_profile ::
  "string option \<Rightarrow> user list \<Rightarrow> int \<Rightarrow> http_method \<Rightarrow> (string \<rightharpoonup> string) \<Rightarrow> outcome" where
  "edit_profile fault t user_id m form =
     (let s0 = begin_session t
      in case query_get t user_id of
        Inl e \<Rightarrow> (s0, [], Uncaught e)
      | Inr None \<Rightarrow> (s0, [(''User not found.'', ''error'')], Redirect_index)
      | Inr (Some user) \<Rightarrow>
         (case m of
            GET \<Rightarrow> (s0, [], Render_edit_profile user None)
          | POST \<Rightarrow>
             (let un = form_get form ''username''; em = form_get form ''email'';
                  fn = form_get form ''first_name''; ln = form_get form ''last_name'';
                  b = form_get form ''bio''
              in case validate_user_input (form_data form) of
                   Inl e \<Rightarrow> (s0, [], Uncaught e)
                 | Inr (is_valid, error_msg) \<Rightarrow>
                     if \<not> is_valid
                     then (s0, [(error_msg, ''error'')],
                           Render_edit_profile user (Some (form_data form)))
                     else if un \<noteq> username user \<and> filter_by_username t un \<noteq> None
                     then (s0, [(''Username already exists. Please choose a different username.'',
                                 ''error'')],
                           Render_edit_profile user (Some (form_data form)))
                     else if em \<noteq> email user \<and> filter_by_email t em \<noteq> None
                     then (s0, [(''Email already registered. Please use a different email.'',
                                 ''error'')],
                           Render_edit_profile user (Some (form_data form)))
                     else
                       (case commit fault
                               (register_change (Update (id' user) un em fn ln b) s0) of
                          Inr s \<Rightarrow>
                            (s, [(''Profile updated successfully!'', ''success'')],
                             Redirect_view_profile (id' user))
                        | Inl (e, s) \<Rightarrow>
                            (rollback s,
                             [(''An error occurred while updating the profile: '' @ e,
                               ''error'')],
                             Render_edit_profile (attributes (rollback s) user) None)))))"

definition delete_profile :: "string option \<Rightarrow> user list \<Rightarrow> int \<Rightarrow> outcome" where
  "delete_profile fault t user_id =
     (let s0 = begin_session t
      in case query_get t user_id of
        Inl e \<Rightarrow> (s0, [], Uncaught e)
      | Inr None \<Rightarrow> (s0, [(''User not found.'', ''error'')], Redirect_index)
      | Inr (Some user) \<Rightarrow>
         (let un = username user
          in case commit fault (register_change (Delete (id' user)) s0) of
               Inr s \<Rightarrow>
                 (s, [(''User '' @ un @ '' deleted successfully!'', ''success'')],
                  Redirect_index)
             | Inl (e, s) \<Rightarrow>
                 (rollback s,
                  [(''An error occurred while deleting the user: '' @ e, ''error'')],
                  Redirect_index)))"

subsection \<open>Notions of the specification\<close>

text \<open>A field is absent, or empty or whitespace-only after trimming.\<close>

definition blank :: "(string \<rightharpoonup> string) \<Rightarrow> string \<Rightarrow> bool" where
  "blank data field = (case data field of None \<Rightarrow> True | Some v \<Rightarrow> strip v = [])"

text \<open>
  The text between the first \<open>@\<close> of an email and its next \<open>@\<close>, or the end of the
  email when there is no second \<open>@\<close>.
\<close>

definition seg_after_at :: "string \<Rightarrow> string" where
  "seg_after_at em =
     takeWhile (\<lambda>x. x \<noteq> CHR ''@'') (tl (dropWhile (\<lambda>x. x \<noteq> CHR ''@'') em))"

text \<open>
  The validator as the specification words it: the checks in their order, the first
  failure giving the result. The email-format check is the condition of the code.
\<close>

definition validate_spec :: "(string \<rightharpoonup> string) \<Rightarrow> bool \<times> string" where
  "validate_spec data =
     (if blank data ''username'' then (False, ''Field 'username' is required.'')
      else if blank data ''email'' then (False, ''Field 'email' is required.'')
      else if blank data ''first_name'' then (False, ''Field 'first name' is required.'')
      else if blank data ''last_name'' then (False, ''Field 'last name' is required.'')
      else if email_check (the (data ''email'')) = Inr True
        then (False, ''Please enter a valid email address.'')
      else if length (strip (the (data ''username''))) < 3
        then (False, ''Username must be at least 3 characters long.'')
      else (True, ''''))"

text \<open>The fields of a submitted form pass validation.\<close>

definition valid_form :: "(string \<rightharpoonup> string) \<Rightarrow> bool" where
  "valid_form form = (validate_user_input (form_data form) = Inr (True, ''''))"

text \<open>A row with its five editable fields replaced by the values of a form.\<close>

definition updated :: "(string \<rightharpoonup> string) \<Rightarrow> user \<Rightarrow> user" where
  "updated form u =
     u\<lparr>username := form_get form ''username'', email := form_get form ''email'',
       first_name := form_get form ''first_name'', last_name := form_get form ''last_name'',
       bio := form_get form ''bio''\<rparr>"

subsection \<open>Properties of the string operations\<close>

lemma split_not_Nil: "split s c \<noteq> []"
  by (induction s) (auto split: list.splits)

lemma hd_split: "hd (split s c) = takeWhile (\<lambda>x. x \<noteq> c) s"
  by (induction s) (auto split: list.splits simp: split_not_Nil)

text \<open>
  When the separator occurs, \<open>split\<close> has a second piece: what stands between the first
  separator and the next.
\<close>

lemma split_second:
  "c \<in> set s \<Longrightarrow>
     1 < length (split s c) \<and>
     split s c ! 1 = takeWhile (\<lambda>x. x \<noteq> c) (tl (dropWhile (\<lambda>x. x \<noteq> c) s))"
proof (induction s)
  case Nil
  then show ?case by simp
next
  case (Cons x xs)
  show ?case
  proof (cases "x = c")
    case True
    have "split xs c \<noteq> []" by (rule split_not_Nil)
    then have "split xs c ! 0 = hd (split xs c)" by (simp add: hd_conv_nth)
    with True show ?thesis using split_not_Nil [of xs c] by (simp add: hd_split)
  next
    case False
    with Cons.prems have "c \<in> set xs" by simp
    from Cons.IH [OF this] False show ?thesis
      by (auto split: list.splits)
  qed
qed

text \<open>The index \<open>[1]\<close> of the email check is never out of range.\<close>

lemma email_check_eq:
  "email_check em = Inr (CHR ''@'' \<notin> set em \<or> CHR ''.'' \<notin> set (seg_after_at em))"
  using split_second [of "CHR ''@''" em]
  by (simp add: email_check_def item_def seg_after_at_def)

subsection \<open>Properties of the validator\<close>

lemma check_required_find:
  "check_required fs data =
     (case find (blank data) fs of
        None \<Rightarrow> None
      | Some f \<Rightarrow> Some (False, required_message f))"
  by (induction fs) (auto simp: blank_def split: option.splits)

lemma required_messages:
  "required_message ''username'' = ''Field 'username' is required.''"
  "required_message ''email'' = ''Field 'email' is required.''"
  "required_message ''first_name'' = ''Field 'first name' is required.''"
  "required_message ''last_name'' = ''Field 'last name' is required.''"
  by (simp_all add: required_message_def replace_def)

lemma check_required_fields:
  "check_required required_fields data =
     (if blank data ''username'' then Some (False, ''Field 'username' is required.'')
      else if blank data ''email'' then Some (False, ''Field 'email' is required.'')
      else if blank data ''first_name'' then Some (False, ''Field 'first name' is required.'')
      else if blank data ''last_name'' then Some (False, ''Field 'last name' is required.'')
      else None)"
  by (simp add: check_required_find required_fields_def required_messages)

lemma not_blank_Some: "\<not> blank data f \<Longrightarrow> \<exists>v. data f = Some v \<and> strip v \<noteq> []"
  by (auto simp: blank_def split: option.splits)

lemma validate_after_required:
  assumes "check_required required_fields data = None"
    and "data ''email'' = Some em" and "data ''username'' = Some un"
  shows "validate_user_input data =
     Inr (if CHR ''@'' \<notin> set em \<or> CHR ''.'' \<notin> set (seg_after_at em)
          then (False, ''Please enter a valid email address.'')
          else if length (strip un) < 3
          then (False, ''Username must be at least 3 characters long.'')
          else (True, ''''))"
  using assms by (simp add: validate_user_input_def getitem_def email_check_eq)

text \<open>Every early return of the loop is a failure.\<close>

lemma check_required_False: "check_required fs data = Some r \<Longrightarrow> \<not> fst r"
  by (induction fs) (auto split: option.splits if_splits)

text \<open>The validator accepts with the empty message only.\<close>

lemma validate_True_empty:
  assumes "validate_user_input data = Inr (True, msg)"
  shows "msg = []"
proof (cases "check_required required_fields data")
  case None
  with assms show ?thesis
    by (auto simp: validate_user_input_def split: sum.splits bool.splits if_splits)
next
  case (Some r)
  with assms have "r = (True, msg)" by (simp add: validate_user_input_def)
  with check_required_False [OF Some] show ?thesis by simp
qed

lemmas eval_validate =
  form_data_def form_get_def validate_user_input_def required_fields_def
  required_message_def replace_def getitem_def email_check_def item_def strip_def
  isspace_def blank_def

subsection \<open>Claims about the validator\<close>

text \<open>
  Claim C1, as amended. For every input mapping whose four required fields are present
  and non-empty after trimming, \<open>validate_user_input\<close> fails with the message
  "Please enter a valid email address." if and only if the email does not contain \<open>@\<close>,
  or the text between its first \<open>@\<close> and its next \<open>@\<close> (the end of the email when there
  is no second \<open>@\<close>) does not contain a dot. The code looks at \<open>split('@')[1]\<close>, not at
  the whole text after the first \<open>@\<close>.
\<close>

theorem validate_email_format:
  assumes "\<forall>f \<in> set required_fields. \<not> blank data f"
    and "data ''email'' = Some em"
  shows "validate_user_input data = Inr (False, ''Please enter a valid email address.'') \<longleftrightarrow>
         (CHR ''@'' \<notin> set em \<or> CHR ''.'' \<notin> set (seg_after_at em))"
proof -
  from assms(1) have nb: "\<not> blank data ''username''" "\<not> blank data ''email''"
    "\<not> blank data ''first_name''" "\<not> blank data ''last_name''"
    by (simp_all add: required_fields_def)
  then have "check_required required_fields data = None"
    by (simp add: check_required_fields)
  moreover from nb obtain un where "data ''username'' = Some un"
    by (meson not_blank_Some)
  ultimately show ?thesis using assms(2)
    by (simp add: validate_after_required)
qed

text \<open>
  The theorem at two emails with two \<open>@\<close>: \<open>a@b.c@d\<close> passes the email check and the
  whole validation, \<open>a@b@c.com\<close> fails the email check.
\<close>

theorem validate_email_format_witness:
  "validate_user_input
     [''username'' \<mapsto> ''abc'', ''email'' \<mapsto> ''a@b.c@d'',
      ''first_name'' \<mapsto> ''A'', ''last_name'' \<mapsto> ''B''] = Inr (True, '''') \<and>
   seg_after_at ''a@b.c@d'' = ''b.c'' \<and>
   validate_user_input
     [''username'' \<mapsto> ''abc'', ''email'' \<mapsto> ''a@b@c.com'',
      ''first_name'' \<mapsto> ''A'', ''last_name'' \<mapsto> ''B''] =
     Inr (False, ''Please enter a valid email address.'') \<and>
   seg_after_at ''a@b@c.com'' = ''b''"
proof -
  let ?d1 = "[''username'' \<mapsto> ''abc'', ''email'' \<mapsto> ''a@b.c@d'',
      ''first_name'' \<mapsto> ''A'', ''last_name'' \<mapsto> ''B'']"
  let ?d2 = "[''username'' \<mapsto> ''abc'', ''email'' \<mapsto> ''a@b@c.com'',
      ''first_name'' \<mapsto> ''A'', ''last_name'' \<mapsto> ''B'']"
  have r2: "\<forall>f \<in> set required_fields. \<not> blank ?d2 f"
    by (simp add: required_fields_def blank_def strip_def isspace_def)
  have e2: "?d2 ''email'' = Some ''a@b@c.com''" by simp
  have s1: "seg_after_at ''a@b.c@d'' = ''b.c''" by (simp add: seg_after_at_def)
  have s2: "seg_after_at ''a@b@c.com'' = ''b''" by (simp add: seg_after_at_def)
  have v1: "validate_user_input ?d1 = Inr (True, '''')" by (simp add: eval_validate)
  have "CHR ''@'' \<notin> set ''a@b@c.com'' \<or> CHR ''.'' \<notin> set (seg_after_at ''a@b@c.com'')"
    by (simp add: s2)
  then have v2: "validate_user_input ?d2 = Inr (False, ''Please enter a valid email address.'')"
    by (rule iffD2 [OF validate_email_format [OF r2 e2]])
  from v1 s1 v2 s2 show ?thesis by (intro conjI)
qed

text \<open>
  Claim C1 as the specification states it fails at the email \<open>a@b@c.com\<close>: the four
  required fields are present and non-empty, the email contains \<open>@\<close> and the text after
  its first \<open>@\<close>, \<open>b@c.com\<close>, contains a dot, and validation fails with the email message.
\<close>

theorem validate_email_format_counterexample:
  "check_required required_fields
     [''username'' \<mapsto> ''abc'', ''email'' \<mapsto> ''a@b@c.com'',
      ''first_name'' \<mapsto> ''A'', ''last_name'' \<mapsto> ''B''] = None \<and>
   CHR ''@'' \<in> set ''a@b@c.com'' \<and>
   tl (dropWhile (\<lambda>x. x \<noteq> CHR ''@'') ''a@b@c.com'') = ''b@c.com'' \<and>
   CHR ''.'' \<in> set ''b@c.com'' \<and>
   validate_user_input
     [''username'' \<mapsto> ''abc'', ''email'' \<mapsto> ''a@b@c.com'',
      ''first_name'' \<mapsto> ''A'', ''last_name'' \<mapsto> ''B''] =
     Inr (False, ''Please enter a valid email address.'')"
  by (simp add: eval_validate)

text \<open>
  Claim C2. For every input mapping, \<open>validate_user_input\<close> applies its checks in the
  fixed order: for each of \<open>username\<close>, \<open>email\<close>, \<open>first_name\<close>, \<open>last_name\<close> in that
  order, a field that is absent or empty after trimming fails with "Field '<field with
  underscores replaced by spaces>' is required."; then the email-format check; then a
  trimmed username of fewer than 3 characters fails with "Username must be at least 3
  characters long."; the first failing check gives the result, and success returns
  \<open>(True, "")\<close>. No exception is raised.
\<close>

theorem validate_check_order: "validate_user_input data = Inr (validate_spec data)"
proof (cases "check_required required_fields data")
  case (Some r)
  then show ?thesis
    by (simp add: validate_user_input_def validate_spec_def check_required_fields
        split: if_splits)
next
  case None
  then have nb: "\<not> blank data ''username''" "\<not> blank data ''email''"
    "\<not> blank data ''first_name''" "\<not> blank data ''last_name''"
    by (simp_all add: check_required_fields split: if_splits)
  from nb obtain un em where "data ''username'' = Some un" "data ''email'' = Some em"
    by (meson not_blank_Some)
  with None nb show ?thesis
    by (simp add: validate_after_required validate_spec_def email_check_eq)
qed

text \<open>
  The theorem on a mapping with no \<open>first_name\<close>, a whitespace-only \<open>last_name\<close>, a
  malformed email and a short username: the missing \<open>first_name\<close> is reported.
\<close>

theorem validate_check_order_witness:
  "validate_user_input
     [''username'' \<mapsto> ''ab'', ''email'' \<mapsto> ''bad-email'', ''last_name'' \<mapsto> ''  ''] =
   Inr (False, ''Field 'first name' is required.'')"
  using validate_check_order
    [of "[''username'' \<mapsto> ''ab'', ''email'' \<mapsto> ''bad-email'', ''last_name'' \<mapsto> ''  '']"]
  by (simp add: validate_spec_def blank_def strip_def isspace_def)

subsection \<open>Properties of the table and the session\<close>

lemma filter_by_username_None:
  "filter_by_username t un = None \<longleftrightarrow> \<not> (\<exists>u\<in>set t. username u = un)"
  by (auto simp: filter_by_username_def find_None_iff)

lemma filter_by_email_None:
  "filter_by_email t em = None \<longleftrightarrow> \<not> (\<exists>u\<in>set t. email u = em)"
  by (auto simp: filter_by_email_def find_None_iff)

text \<open>The lookup by id raises exactly at the ids that the store does not take.\<close>

lemma query_get_Inl_iff: "query_get t i = Inl e \<longleftrightarrow> \<not> int64 i \<and> e = OverflowError"
  by (auto simp: query_get_def)

lemma query_get_None_iff: "query_get t i = Inr None \<longleftrightarrow> int64 i \<and> i \<notin> id' ` set t"
  by (auto simp: query_get_def find_None_iff)

lemma query_get_SomeD:
  "query_get t i = Inr (Some u) \<Longrightarrow> u \<in> set t \<and> id' u = i \<and> int64 i"
  by (auto simp: query_get_def find_Some_iff split: if_splits)

text \<open>A lookup after the update of the rows with key \<open>i\<close> finds the updated row.\<close>

lemma find_map_key:
  assumes "find (\<lambda>v. id' v = i) t = Some u" and "\<And>v. id' (f v) = id' v"
  shows "find (\<lambda>v. id' v = i) (map (\<lambda>v. if id' v = i then f v else v) t) = Some (f u)"
  using assms(1) by (induction t) (auto simp: assms(2))

lemma query_get_map:
  assumes "query_get t i = Inr (Some u)" and "\<And>v. id' (f v) = id' v"
  shows "query_get (map (\<lambda>v. if id' v = i then f v else v) t) i = Inr (Some (f u))"
proof -
  from assms(1) have "int64 i" and "find (\<lambda>v. id' v = i) t = Some u"
    by (simp_all add: query_get_def split: if_splits)
  then show ?thesis by (simp add: query_get_def find_map_key [OF _ assms(2)])
qed

lemma query_get_filter: "int64 i \<Longrightarrow> query_get (filter (\<lambda>u. id' u \<noteq> i) t) i = Inr None"
  by (auto simp: query_get_None_iff)

text \<open>With distinct keys, the deletion of a key that is in use removes one row: its own.\<close>

lemma filter_key_set:
  assumes "distinct (map id' t)" and "query_get t i = Inr (Some u)"
  shows "set (filter (\<lambda>v. id' v \<noteq> i) t) = set t - {u}"
proof -
  from assms(2) have u: "u \<in> set t" "id' u = i" by (simp_all add: query_get_SomeD)
  from assms(1) have inj: "inj_on id' (set t)" by (simp add: distinct_map)
  have "(id' v \<noteq> i) = (v \<noteq> u)" if "v \<in> set t" for v
  proof
    assume "id' v \<noteq> i"
    with u(2) show "v \<noteq> u" by blast
  next
    assume "v \<noteq> u"
    with inj_onD [OF inj _ that u(1)] have "id' v \<noteq> id' u" by blast
    with u(2) show "id' v \<noteq> i" by simp
  qed
  then have "filter (\<lambda>v. id' v \<noteq> i) t = filter (\<lambda>v. v \<noteq> u) t"
    by (simp cong: filter_cong)
  then show ?thesis by auto
qed

lemma filter_key_length_find:
  assumes "distinct (map id' t)" and "find (\<lambda>v. id' v = i) t = Some u"
  shows "Suc (length (filter (\<lambda>v. id' v \<noteq> i) t)) = length t"
  using assms
proof (induction t)
  case Nil
  then show ?case by simp
next
  case (Cons a t)
  show ?case
  proof (cases "id' a = i")
    case True
    with Cons.prems(1) have "i \<notin> id' ` set t" by simp
    then have "\<forall>v\<in>set t. id' v \<noteq> i" by blast
    then have "filter (\<lambda>v. id' v \<noteq> i) t = t" by (simp add: filter_id_conv)
    with True show ?thesis by simp
  next
    case False
    with Cons.prems have "distinct (map id' t)" "find (\<lambda>v. id' v = i) t = Some u"
      by simp_all
    with Cons.IH False show ?thesis by simp
  qed
qed

lemma filter_key_length:
  assumes "distinct (map id' t)" and "query_get t i = Inr (Some u)"
  shows "Suc (length (filter (\<lambda>v. id' v \<noteq> i) t)) = length t"
proof -
  from assms(2) have "find (\<lambda>v. id' v = i) t = Some u"
    by (simp add: query_get_def split: if_splits)
  with assms(1) show ?thesis by (rule filter_key_length_find)
qed

lemma fold_max_ge: "(a::int) \<le> fold max xs a \<and> (\<forall>x\<in>set xs. x \<le> fold max xs a)"
proof (induction xs arbitrary: a)
  case Nil
  show ?case by simp
next
  case (Cons y ys)
  have "max y a \<le> fold max ys (max y a)" and "\<forall>x\<in>set ys. x \<le> fold max ys (max y a)"
    using Cons.IH [of "max y a"] by simp_all
  then show ?case by auto
qed

text \<open>The key of a new row is above every key in use.\<close>

lemma fresh_id_above: "\<forall>u\<in>set t. id' u < fresh_id t"
proof (cases t)
  case Nil
  then show ?thesis by simp
next
  case (Cons u us)
  then show ?thesis
    using fold_max_ge [of "id' u" "map id' us"] by (auto simp: fresh_id_def)
qed

lemma fresh_id_fresh: "fresh_id t \<notin> id' ` set t"
  using fresh_id_above [of t] by auto

text \<open>
  A session with one pending change. The commit writes the change, or raises and leaves
  it pending; the rollback drops it, and with it the assignments to a loaded object.
\<close>

lemma commit_single:
  "commit fault (register_change c \<lparr>table = t, pending = []\<rparr>) =
     (case fault of
        Some e \<Rightarrow> Inl (e, \<lparr>table = t, pending = [c]\<rparr>)
      | None \<Rightarrow> Inr \<lparr>table = flush c t, pending = []\<rparr>)"
  by (simp add: commit_def register_change_def split: option.splits)

lemma rollback_pending: "rollback \<lparr>table = t, pending = cs\<rparr> = \<lparr>table = t, pending = []\<rparr>"
  by (simp add: rollback_def)

lemma attributes_no_pending: "attributes \<lparr>table = t, pending = []\<rparr> u = u"
  by (simp add: attributes_def)

text \<open>
  Without the rollback the session of a failed edit still holds the assignments: the
  object has the submitted values, not those of its row.
\<close>

lemma attributes_pending_update:
  "attributes \<lparr>table = t, pending = [Update (id' u) un em fn ln b]\<rparr> u =
     u\<lparr>username := un, email := em, first_name := fn, last_name := ln, bio := b\<rparr>"
  by (simp add: attributes_def)

subsection \<open>The handlers, path by path\<close>

lemma validate_no_exception: "validate_user_input data \<noteq> Inl e"
proof (cases "check_required required_fields data")
  case (Some r)
  then show ?thesis by (simp add: validate_user_input_def)
next
  case None
  then have "\<not> blank data ''username''" "\<not> blank data ''email''"
    by (simp_all add: check_required_fields split: if_splits)
  then obtain un em where "data ''username'' = Some un" "data ''email'' = Some em"
    by (meson not_blank_Some)
  with None show ?thesis by (simp add: validate_after_required)
qed

lemma register_POST_valid:
  assumes "valid_form form"
  shows "register fault t POST form =
     (if \<exists>u\<in>set t. username u = form_get form ''username''
      then (\<lparr>table = t, pending = []\<rparr>,
            [(''Username already exists. Please choose a different username.'', ''error'')],
            Render_register (Some (form_data form)))
      else if \<exists>u\<in>set t. email u = form_get form ''email''
      then (\<lparr>table = t, pending = []\<rparr>,
            [(''Email already registered. Please use a different email.'', ''error'')],
            Render_register (Some (form_data form)))
      else (case fault of
              None \<Rightarrow>
                (\<lparr>table =
                    t @ [\<lparr>id' = fresh_id t, username = form_get form ''username'',
                           email = form_get form ''email'',
                           first_name = form_get form ''first_name'',
                           last_name = form_get form ''last_name'',
                           bio = form_get form ''bio''\<rparr>],
                  pending = []\<rparr>,
                 [(''User '' @ form_get form ''username'' @ '' registered successfully!'',
                   ''success'')],
                 Redirect_index)
            | Some e \<Rightarrow>
                (\<lparr>table = t, pending = []\<rparr>,
                 [(''An error occurred during registration: '' @ e, ''error'')],
                 Render_register None)))"
  using assms unfolding valid_form_def register_def Let_def begin_session_def
  by (cases fault)
    (simp_all add: filter_by_username_None filter_by_email_None commit_single rollback_pending
     )

lemma edit_POST_valid:
  assumes "query_get t i = Inr (Some user)" and "valid_form form"
  shows "edit_profile fault t i POST form =
     (if form_get form ''username'' \<noteq> username user \<and>
         (\<exists>u\<in>set t. username u = form_get form ''username'')
      then (\<lparr>table = t, pending = []\<rparr>,
            [(''Username already exists. Please choose a different username.'', ''error'')],
            Render_edit_profile user (Some (form_data form)))
      else if form_get form ''email'' \<noteq> email user \<and>
         (\<exists>u\<in>set t. email u = form_get form ''email'')
      then (\<lparr>table = t, pending = []\<rparr>,
            [(''Email already registered. Please use a different email.'', ''error'')],
            Render_edit_profile user (Some (form_data form)))
      else (case fault of
              None \<Rightarrow>
                (\<lparr>table = map (\<lambda>u. if id' u = i then updated form u else u) t,
                  pending = []\<rparr>,
                 [(''Profile updated successfully!'', ''success'')],
                 Redirect_view_profile i)
            | Some e \<Rightarrow>
                (\<lparr>table = t, pending = []\<rparr>,
                 [(''An error occurred while updating the profile: '' @ e, ''error'')],
                 Render_edit_profile user None)))"
proof -
  from assms(1) have "id' user = i" by (simp add: query_get_SomeD)
  with assms show ?thesis
    unfolding valid_form_def edit_profile_def Let_def begin_session_def
    by (cases fault)
      (simp_all add: filter_by_username_None filter_by_email_None commit_single
        rollback_pending attributes_no_pending updated_def)
qed

lemma delete_found:
  assumes "query_get t i = Inr (Some user)"
  shows "delete_profile fault t i =
     (case fault of
        None \<Rightarrow>
          (\<lparr>table = filter (\<lambda>u. id' u \<noteq> i) t, pending = []\<rparr>,
           [(''User '' @ username user @ '' deleted successfully!'', ''success'')],
           Redirect_index)
      | Some e \<Rightarrow>
          (\<lparr>table = t, pending = []\<rparr>,
           [(''An error occurred while deleting the user: '' @ e, ''error'')],
           Redirect_index))"
proof -
  from assms have "id' user = i" by (simp add: query_get_SomeD)
  with assms show ?thesis
    unfolding delete_profile_def Let_def begin_session_def
    by (cases fault)
      (simp_all add: commit_single rollback_pending)
qed

text \<open>
  An edit flashes its success message on one path only: the record exists, the request
  is a POST, the form is valid, no uniqueness check fails and the commit goes through.
\<close>

lemma edit_success_cases:
  assumes "edit_profile fault t i m form =
             (s', [(''Profile updated successfully!'', ''success'')], r)"
  shows "\<exists>user. query_get t i = Inr (Some user) \<and> m = POST \<and> valid_form form \<and>
           fault = None \<and>
           s' = \<lparr>table = map (\<lambda>u. if id' u = i then updated form u else u) t,
                  pending = []\<rparr> \<and>
           r = Redirect_view_profile i"
proof (cases "query_get t i")
  case (Inl e)
  with assms show ?thesis by (simp add: edit_profile_def)
next
  case (Inr found)
  show ?thesis
  proof (cases found)
    case None
    with Inr assms show ?thesis by (simp add: edit_profile_def)
  next
    case (Some user)
    with Inr have q: "query_get t i = Inr (Some user)" by simp
    show ?thesis
    proof (cases m)
      case GET
      with q assms show ?thesis by (simp add: edit_profile_def)
    next
      case POST
      show ?thesis
      proof (cases "validate_user_input (form_data form)")
        case (Inl e)
        with q POST assms show ?thesis by (simp add: edit_profile_def)
      next
        case (Inr p)
        obtain ok msg where p: "p = (ok, msg)" by (cases p)
        have ok: "ok"
        proof (rule ccontr)
          assume "\<not> ok"
          with q POST Inr p assms show False by (simp add: edit_profile_def)
        qed
        with Inr p have "msg = []"
          using validate_True_empty [of "form_data form" msg] by simp
        with Inr p ok have v: "valid_form form" by (simp add: valid_form_def)
        from assms show ?thesis
          unfolding POST edit_POST_valid [OF q v]
          using q v by (simp split: if_splits option.splits)
      qed
    qed
  qed
qed

lemma updated_row:
  "id' u = i \<Longrightarrow>
   updated form u =
     \<lparr>id' = i, username = form_get form ''username'', email = form_get form ''email'',
      first_name = form_get form ''first_name'', last_name = form_get form ''last_name'',
      bio = form_get form ''bio''\<rparr>"
  by (cases u) (simp add: updated_def)

lemma id_updated: "id' (updated form u) = id' u"
  by (simp add: updated_def)

lemmas eval_handlers =
  valid_form_def register_def edit_profile_def delete_profile_def view_profile_def
  filter_by_username_def filter_by_email_def query_get_def int64_def begin_session_def
  commit_def rollback_def register_change_def attributes_def fresh_id_def

subsection \<open>Claims about registration\<close>

text \<open>
  Claim C3. For every registration request whose fields pass validation: when a row
  has the submitted username the handler rejects with "Username already exists. Please
  choose a different username." (also when the email collides too); otherwise, when a
  row has the submitted email, it rejects with "Email already registered. Please use a
  different email."; in both cases the table is unchanged and nothing is pending.
  Otherwise, when the commit goes through, the table gains exactly one row, with a key
  no row had and the five submitted fields, and the message is "User <username>
  registered successfully!".
\<close>

theorem register_uniqueness:
  assumes "valid_form form"
  shows
    "((\<exists>u\<in>set t. username u = form_get form ''username'') \<longrightarrow>
        register fault t POST form =
          (\<lparr>table = t, pending = []\<rparr>,
           [(''Username already exists. Please choose a different username.'', ''error'')],
           Render_register (Some (form_data form)))) \<and>
     ((\<forall>u\<in>set t. username u \<noteq> form_get form ''username'') \<and>
      (\<exists>u\<in>set t. email u = form_get form ''email'') \<longrightarrow>
        register fault t POST form =
          (\<lparr>table = t, pending = []\<rparr>,
           [(''Email already registered. Please use a different email.'', ''error'')],
           Render_register (Some (form_data form)))) \<and>
     ((\<forall>u\<in>set t. username u \<noteq> form_get form ''username'') \<and>
      (\<forall>u\<in>set t. email u \<noteq> form_get form ''email'') \<longrightarrow>
        register None t POST form =
          (\<lparr>table =
              t @ [\<lparr>id' = fresh_id t, username = form_get form ''username'',
                     email = form_get form ''email'',
                     first_name = form_get form ''first_name'',
                     last_name = form_get form ''last_name'',
                     bio = form_get form ''bio''\<rparr>],
            pending = []\<rparr>,
           [(''User '' @ form_get form ''username'' @ '' registered successfully!'',
             ''success'')],
           Redirect_index) \<and>
        fresh_id t \<notin> id' ` set t)"
proof (intro conjI impI)
  assume "\<exists>u\<in>set t. username u = form_get form ''username''"
  then show "register fault t POST form =
      (\<lparr>table = t, pending = []\<rparr>,
       [(''Username already exists. Please choose a different username.'', ''error'')],
       Render_register (Some (form_data form)))"
    by (simp add: register_POST_valid [OF assms])
next
  assume "(\<forall>u\<in>set t. username u \<noteq> form_get form ''username'') \<and>
      (\<exists>u\<in>set t. email u = form_get form ''email'')"
  then show "register fault t POST form =
      (\<lparr>table = t, pending = []\<rparr>,
       [(''Email already registered. Please use a different email.'', ''error'')],
       Render_register (Some (form_data form)))"
    by (simp add: register_POST_valid [OF assms])
next
  assume "(\<forall>u\<in>set t. username u \<noteq> form_get form ''username'') \<and>
      (\<forall>u\<in>set t. email u \<noteq> form_get form ''email'')"
  then show "register None t POST form =
      (\<lparr>table =
          t @ [\<lparr>id' = fresh_id t, username = form_get form ''username'',
                 email = form_get form ''email'',
                 first_name = form_get form ''first_name'',
                 last_name = form_get form ''last_name'',
                 bio = form_get form ''bio''\<rparr>],
        pending = []\<rparr>,
       [(''User '' @ form_get form ''username'' @ '' registered successfully!'', ''success'')],
       Redirect_index)"
    by (simp add: register_POST_valid [OF assms])
next
  show "fresh_id t \<notin> id' ` set t" by (rule fresh_id_fresh)
qed

text \<open>
  The theorem on the scenario of the specification: \<open>alice\<close> is registered, a second
  registration of the username \<open>alice\<close> with another email is rejected with the
  username message and the table keeps its one row. A registration of another username
  with the email of \<open>alice\<close> is rejected with the email message, and one with a new
  username and a new email adds the row 2.
\<close>

theorem register_uniqueness_witness:
  "register None
     [\<lparr>id' = 1, username = ''alice'', email = ''a@b.com'', first_name = ''A'',
       last_name = ''B'', bio = ''hi''\<rparr>]
     POST
     [''username'' \<mapsto> ''alice'', ''email'' \<mapsto> ''c@d.com'', ''first_name'' \<mapsto> ''A'',
      ''last_name'' \<mapsto> ''B''] =
   (\<lparr>table =
       [\<lparr>id' = 1, username = ''alice'', email = ''a@b.com'', first_name = ''A'',
         last_name = ''B'', bio = ''hi''\<rparr>],
     pending = []\<rparr>,
    [(''Username already exists. Please choose a different username.'', ''error'')],
    Render_register (Some (form_data
      [''username'' \<mapsto> ''alice'', ''email'' \<mapsto> ''c@d.com'', ''first_name'' \<mapsto> ''A'',
       ''last_name'' \<mapsto> ''B'']))) \<and>
   register None
     [\<lparr>id' = 1, username = ''alice'', email = ''a@b.com'', first_name = ''A'',
       last_name = ''B'', bio = ''hi''\<rparr>]
     POST
     [''username'' \<mapsto> ''bobby'', ''email'' \<mapsto> ''a@b.com'', ''first_name'' \<mapsto> ''Bo'',
      ''last_name'' \<mapsto> ''By''] =
   (\<lparr>table =
       [\<lparr>id' = 1, username = ''alice'', email = ''a@b.com'', first_name = ''A'',
         last_name = ''B'', bio = ''hi''\<rparr>],
     pending = []\<rparr>,
    [(''Email already registered. Please use a different email.'', ''error'')],
    Render_register (Some (form_data
      [''username'' \<mapsto> ''bobby'', ''email'' \<mapsto> ''a@b.com'', ''first_name'' \<mapsto> ''Bo'',
       ''last_name'' \<mapsto> ''By'']))) \<and>
   register None
     [\<lparr>id' = 1, username = ''alice'', email = ''a@b.com'', first_name = ''A'',
       last_name = ''B'', bio = ''hi''\<rparr>]
     POST
     [''username'' \<mapsto> ''bobby'', ''email'' \<mapsto> ''b@b.com'', ''first_name'' \<mapsto> ''Bo'',
      ''last_name'' \<mapsto> ''By''] =
   (\<lparr>table =
       [\<lparr>id' = 1, username = ''alice'', email = ''a@b.com'', first_name = ''A'',
         last_name = ''B'', bio = ''hi''\<rparr>,
        \<lparr>id' = 2, username = ''bobby'', email = ''b@b.com'', first_name = ''Bo'',
         last_name = ''By'', bio = ''''\<rparr>],
     pending = []\<rparr>,
    [(''User bobby registered successfully!'', ''success'')], Redirect_index)"
proof -
  let ?t = "[\<lparr>id' = 1, username = ''alice'', email = ''a@b.com'', first_name = ''A'',
       last_name = ''B'', bio = ''hi''\<rparr>]"
  let ?f = "[''username'' \<mapsto> ''alice'', ''email'' \<mapsto> ''c@d.com'', ''first_name'' \<mapsto> ''A'',
      ''last_name'' \<mapsto> ''B'']"
  let ?g = "[''username'' \<mapsto> ''bobby'', ''email'' \<mapsto> ''a@b.com'', ''first_name'' \<mapsto> ''Bo'',
      ''last_name'' \<mapsto> ''By'']"
  let ?h = "[''username'' \<mapsto> ''bobby'', ''email'' \<mapsto> ''b@b.com'', ''first_name'' \<mapsto> ''Bo'',
      ''last_name'' \<mapsto> ''By'']"
  have vf: "valid_form ?f" by (simp add: valid_form_def eval_validate)
  have vg: "valid_form ?g" by (simp add: valid_form_def eval_validate)
  have vh: "valid_form ?h" by (simp add: valid_form_def eval_validate)
  have cf: "\<exists>u\<in>set ?t. username u = form_get ?f ''username''" by (simp add: form_get_def)
  have cg: "(\<forall>u\<in>set ?t. username u \<noteq> form_get ?g ''username'') \<and>
      (\<exists>u\<in>set ?t. email u = form_get ?g ''email'')"
    by (simp add: form_get_def)
  have ch: "(\<forall>u\<in>set ?t. username u \<noteq> form_get ?h ''username'') \<and>
      (\<forall>u\<in>set ?t. email u \<noteq> form_get ?h ''email'')"
    by (simp add: form_get_def)
  have gh: "form_get ?h ''username'' = ''bobby''" "form_get ?h ''email'' = ''b@b.com''"
    "form_get ?h ''first_name'' = ''Bo''" "form_get ?h ''last_name'' = ''By''"
    "form_get ?h ''bio'' = ''''" "fresh_id ?t = 2"
    by (simp_all add: form_get_def fresh_id_def)
  from register_uniqueness [OF vf, of ?t None] cf
  have 1: "register None ?t POST ?f =
      (\<lparr>table = ?t, pending = []\<rparr>,
       [(''Username already exists. Please choose a different username.'', ''error'')],
       Render_register (Some (form_data ?f)))"
    by blast
  from register_uniqueness [OF vg, of ?t None] cg
  have 2: "register None ?t POST ?g =
      (\<lparr>table = ?t, pending = []\<rparr>,
       [(''Email already registered. Please use a different email.'', ''error'')],
       Render_register (Some (form_data ?g)))"
    by blast
  from register_uniqueness [OF vh, of ?t] ch
  have "register None ?t POST ?h =
      (\<lparr>table =
          ?t @ [\<lparr>id' = fresh_id ?t, username = form_get ?h ''username'',
                  email = form_get ?h ''email'', first_name = form_get ?h ''first_name'',
                  last_name = form_get ?h ''last_name'', bio = form_get ?h ''bio''\<rparr>],
        pending = []\<rparr>,
       [(''User '' @ form_get ?h ''username'' @ '' registered successfully!'', ''success'')],
       Redirect_index)"
    by blast
  then have 3: "register None ?t POST ?h =
      (\<lparr>table =
          ?t @ [\<lparr>id' = 2, username = ''bobby'', email = ''b@b.com'', first_name = ''Bo'',
                  last_name = ''By'', bio = ''''\<rparr>],
        pending = []\<rparr>,
       [(''User '' @ ''bobby'' @ '' registered successfully!'', ''success'')],
       Redirect_index)"
    unfolding gh .
  from 1 2 3 show ?thesis by simp
qed

subsection \<open>Claims about editing\<close>

text \<open>
  Claim C4. For every edit request on an existing record whose new fields pass
  validation, the edit fails with the username-collision message exactly when the new
  username differs from the record's current username and some row has it, and with the
  email-collision message exactly when that is not so, the new email differs from the
  record's current email and some row has it. So an edit that resubmits the record's own
  username and email fails no uniqueness check: it goes on to the write.
\<close>

theorem edit_uniqueness_conditional:
  assumes "query_get t i = Inr (Some user)" and "valid_form form"
  shows
    "(fst (snd (edit_profile fault t i POST form)) =
        [(''Username already exists. Please choose a different username.'', ''error'')] \<longleftrightarrow>
      form_get form ''username'' \<noteq> username user \<and>
      (\<exists>u\<in>set t. username u = form_get form ''username'')) \<and>
     (fst (snd (edit_profile fault t i POST form)) =
        [(''Email already registered. Please use a different email.'', ''error'')] \<longleftrightarrow>
      \<not> (form_get form ''username'' \<noteq> username user \<and>
         (\<exists>u\<in>set t. username u = form_get form ''username'')) \<and>
      form_get form ''email'' \<noteq> email user \<and>
      (\<exists>u\<in>set t. email u = form_get form ''email'')) \<and>
     (form_get form ''username'' = username user \<and> form_get form ''email'' = email user \<longrightarrow>
      edit_profile fault t i POST form =
        (case fault of
           None \<Rightarrow>
             (\<lparr>table = map (\<lambda>u. if id' u = i then updated form u else u) t,
               pending = []\<rparr>,
              [(''Profile updated successfully!'', ''success'')],
              Redirect_view_profile i)
         | Some e \<Rightarrow>
             (\<lparr>table = t, pending = []\<rparr>,
              [(''An error occurred while updating the profile: '' @ e, ''error'')],
              Render_edit_profile user None)))"
  unfolding edit_POST_valid [OF assms]
  by (cases fault) simp_all

text \<open>
  The theorem on a table of two rows: \<open>alice\<close> resubmits her own username and email
  with a new biography and the edit succeeds.
\<close>

theorem edit_uniqueness_conditional_witness:
  "edit_profile None
     [\<lparr>id' = 1, username = ''alice'', email = ''a@b.com'', first_name = ''A'',
       last_name = ''B'', bio = ''hi''\<rparr>,
      \<lparr>id' = 2, username = ''bobby'', email = ''b@b.com'', first_name = ''Bo'',
       last_name = ''By'', bio = ''''\<rparr>]
     1 POST
     [''username'' \<mapsto> ''alice'', ''email'' \<mapsto> ''a@b.com'', ''first_name'' \<mapsto> ''A'',
      ''last_name'' \<mapsto> ''B'', ''bio'' \<mapsto> ''new''] =
   (\<lparr>table =
       [\<lparr>id' = 1, username = ''alice'', email = ''a@b.com'', first_name = ''A'',
         last_name = ''B'', bio = ''new''\<rparr>,
        \<lparr>id' = 2, username = ''bobby'', email = ''b@b.com'', first_name = ''Bo'',
         last_name = ''By'', bio = ''''\<rparr>],
     pending = []\<rparr>,
    [(''Profile updated successfully!'', ''success'')], Redirect_view_profile 1)"
proof -
  let ?a = "\<lparr>id' = 1, username = ''alice'', email = ''a@b.com'', first_name = ''A'',
       last_name = ''B'', bio = ''hi''\<rparr>"
  let ?b = "\<lparr>id' = 2, username = ''bobby'', email = ''b@b.com'', first_name = ''Bo'',
       last_name = ''By'', bio = ''''\<rparr>"
  let ?f = "[''username'' \<mapsto> ''alice'', ''email'' \<mapsto> ''a@b.com'', ''first_name'' \<mapsto> ''A'',
      ''last_name'' \<mapsto> ''B'', ''bio'' \<mapsto> ''new'']"
  have q: "query_get [?a, ?b] 1 = Inr (Some ?a)" by (simp add: query_get_def int64_def)
  have v: "valid_form ?f" by (simp add: valid_form_def eval_validate)
  have own: "form_get ?f ''username'' = username ?a \<and> form_get ?f ''email'' = email ?a"
    by (simp add: form_get_def)
  have m: "map (\<lambda>u. if id' u = 1 then updated ?f u else u) [?a, ?b] =
      [\<lparr>id' = 1, username = ''alice'', email = ''a@b.com'', first_name = ''A'',
        last_name = ''B'', bio = ''new''\<rparr>, ?b]"
    by (simp add: updated_def form_get_def)
  from edit_uniqueness_conditional [OF q v, of None] own
  have "edit_profile None [?a, ?b] 1 POST ?f =
      (\<lparr>table = map (\<lambda>u. if id' u = 1 then updated ?f u else u) [?a, ?b], pending = []\<rparr>,
       [(''Profile updated successfully!'', ''success'')], Redirect_view_profile 1)"
    by simp
  then show ?thesis by (simp only: m)
qed

text \<open>
  Claim C5. For every edit request that succeeds, the five editable fields of the record
  are overwritten with the submitted values: a lookup by the record's id in the new
  table returns exactly those values under the same id, the ids of the table are what
  they were, every row with another id is unchanged, nothing is left pending, and the
  response redirects to the profile of that id.
\<close>

theorem edit_success_overwrites:
  assumes "edit_profile fault t i m form =
             (s', [(''Profile updated successfully!'', ''success'')], r)"
  shows "query_get (table s') i =
           Inr (Some \<lparr>id' = i, username = form_get form ''username'',
                      email = form_get form ''email'',
                      first_name = form_get form ''first_name'',
                      last_name = form_get form ''last_name'',
                      bio = form_get form ''bio''\<rparr>) \<and>
         map id' (table s') = map id' t \<and>
         (\<forall>k<length t. id' (t ! k) \<noteq> i \<longrightarrow> table s' ! k = t ! k) \<and>
         pending s' = [] \<and>
         r = Redirect_view_profile i"
proof -
  from edit_success_cases [OF assms] obtain user where
    u: "query_get t i = Inr (Some user)" and
    s': "s' = \<lparr>table = map (\<lambda>u. if id' u = i then updated form u else u) t,
               pending = []\<rparr>" and
    r: "r = Redirect_view_profile i"
    by blast
  from u have "id' user = i" by (simp add: query_get_SomeD)
  moreover have "query_get (table s') i = Inr (Some (updated form user))"
    unfolding s' using query_get_map [where f = "updated form", OF u id_updated] by simp
  ultimately have 1: "query_get (table s') i =
           Inr (Some \<lparr>id' = i, username = form_get form ''username'',
                      email = form_get form ''email'',
                      first_name = form_get form ''first_name'',
                      last_name = form_get form ''last_name'',
                      bio = form_get form ''bio''\<rparr>)"
    by (simp add: updated_row)
  have "map id' (map (\<lambda>u. if id' u = i then updated form u else u) t) = map id' t"
    by (induction t) (simp_all add: id_updated)
  then have 2: "map id' (table s') = map id' t" by (simp add: s')
  have 3: "\<forall>k<length t. id' (t ! k) \<noteq> i \<longrightarrow> table s' ! k = t ! k"
    by (simp add: s')
  have 4: "pending s' = []" by (simp add: s')
  from 1 2 3 4 r show ?thesis by (intro conjI)
qed

text \<open>
  The theorem on a table of two rows: all five fields of the row 1 are replaced, and
  the row 2 is what it was.
\<close>

theorem edit_success_overwrites_witness:
  "query_get
     (table (fst (edit_profile None
       [\<lparr>id' = 1, username = ''alice'', email = ''a@b.com'', first_name = ''A'',
         last_name = ''B'', bio = ''hi''\<rparr>,
        \<lparr>id' = 2, username = ''bobby'', email = ''b@b.com'', first_name = ''Bo'',
         last_name = ''By'', bio = ''''\<rparr>]
       1 POST
       [''username'' \<mapsto> ''alicia'', ''email'' \<mapsto> ''al@b.org'', ''first_name'' \<mapsto> ''Al'',
        ''last_name'' \<mapsto> ''Bee'', ''bio'' \<mapsto> ''new'']))) 1 =
   Inr (Some \<lparr>id' = 1, username = ''alicia'', email = ''al@b.org'', first_name = ''Al'',
         last_name = ''Bee'', bio = ''new''\<rparr>) \<and>
   table (fst (edit_profile None
       [\<lparr>id' = 1, username = ''alice'', email = ''a@b.com'', first_name = ''A'',
         last_name = ''B'', bio = ''hi''\<rparr>,
        \<lparr>id' = 2, username = ''bobby'', email = ''b@b.com'', first_name = ''Bo'',
         last_name = ''By'', bio = ''''\<rparr>]
       1 POST
       [''username'' \<mapsto> ''alicia'', ''email'' \<mapsto> ''al@b.org'', ''first_name'' \<mapsto> ''Al'',
        ''last_name'' \<mapsto> ''Bee'', ''bio'' \<mapsto> ''new''])) ! 1 =
   \<lparr>id' = 2, username = ''bobby'', email = ''b@b.com'', first_name = ''Bo'',
         last_name = ''By'', bio = ''''\<rparr>"
proof -
  let ?a = "\<lparr>id' = 1, username = ''alice'', email = ''a@b.com'', first_name = ''A'',
       last_name = ''B'', bio = ''hi''\<rparr>"
  let ?a' = "\<lparr>id' = 1, username = ''alicia'', email = ''al@b.org'', first_name = ''Al'',
         last_name = ''Bee'', bio = ''new''\<rparr>"
  let ?b = "\<lparr>id' = 2, username = ''bobby'', email = ''b@b.com'', first_name = ''Bo'',
       last_name = ''By'', bio = ''''\<rparr>"
  let ?f = "[''username'' \<mapsto> ''alicia'', ''email'' \<mapsto> ''al@b.org'', ''first_name'' \<mapsto> ''Al'',
        ''last_name'' \<mapsto> ''Bee'', ''bio'' \<mapsto> ''new'']"
  have h: "edit_profile None [?a, ?b] 1 POST ?f =
      (\<lparr>table = [?a', ?b], pending = []\<rparr>,
       [(''Profile updated successfully!'', ''success'')], Redirect_view_profile 1)"
    by (simp add: eval_handlers eval_validate)
  have g: "form_get ?f ''username'' = ''alicia''" "form_get ?f ''email'' = ''al@b.org''"
    "form_get ?f ''first_name'' = ''Al''" "form_get ?f ''last_name'' = ''Bee''"
    "form_get ?f ''bio'' = ''new''"
    by (simp_all add: form_get_def)
  from edit_success_overwrites [OF h]
  have "query_get [?a', ?b] 1 = Inr (Some ?a') \<and> [?a', ?b] ! 1 = [?a, ?b] ! 1"
    unfolding g by simp
  then show ?thesis unfolding h by simp
qed

text \<open>
  Claim C10. For every edit request whose form omits the field \<open>bio\<close> and that
  succeeds, the handler takes \<open>""\<close> for the missing field and writes it with the other
  four: a lookup by the record's id then returns a row with the empty \<open>bio\<close>, whatever
  the \<open>bio\<close> was before.
\<close>

theorem edit_missing_bio_cleared:
  assumes "form ''bio'' = None"
    and "edit_profile fault t i m form =
           (s', [(''Profile updated successfully!'', ''success'')], r)"
  shows "form_data form ''bio'' = Some '''' \<and>
         map_sum id (map_option bio) (query_get (table s') i) = Inr (Some '''')"
proof -
  from assms(1) have b: "form_get form ''bio'' = ''''" by (simp add: form_get_def)
  from edit_success_cases [OF assms(2)] obtain user where
    u: "query_get t i = Inr (Some user)" and
    s': "s' = \<lparr>table = map (\<lambda>u. if id' u = i then updated form u else u) t,
               pending = []\<rparr>"
    by blast
  have "query_get (table s') i = Inr (Some (updated form user))"
    unfolding s' using query_get_map [where f = "updated form", OF u id_updated] by simp
  with b show ?thesis by (simp add: updated_def form_data_def)
qed

text \<open>The theorem on a row whose \<open>bio\<close> is \<open>hi\<close>, edited with a form that has no \<open>bio\<close>.\<close>

theorem edit_missing_bio_cleared_witness:
  "map_sum id (map_option bio) (query_get
     (table (fst (edit_profile None
       [\<lparr>id' = 1, username = ''alice'', email = ''a@b.com'', first_name = ''A'',
         last_name = ''B'', bio = ''hi''\<rparr>]
       1 POST
       [''username'' \<mapsto> ''alice'', ''email'' \<mapsto> ''a@b.com'', ''first_name'' \<mapsto> ''A'',
        ''last_name'' \<mapsto> ''B'']))) 1) = Inr (Some '''')"
proof -
  let ?a = "\<lparr>id' = 1, username = ''alice'', email = ''a@b.com'', first_name = ''A'',
       last_name = ''B'', bio = ''hi''\<rparr>"
  let ?f = "[''username'' \<mapsto> ''alice'', ''email'' \<mapsto> ''a@b.com'', ''first_name'' \<mapsto> ''A'',
        ''last_name'' \<mapsto> ''B'']"
  have n: "?f ''bio'' = None" by simp
  have h: "edit_profile None [?a] 1 POST ?f =
      (\<lparr>table = [?a\<lparr>bio := ''''\<rparr>], pending = []\<rparr>,
       [(''Profile updated successfully!'', ''success'')], Redirect_view_profile 1)"
    by (simp add: eval_handlers eval_validate)
  from edit_missing_bio_cleared [OF n h]
  have "map_sum id (map_option bio)
      (query_get (table \<lparr>table = [?a\<lparr>bio := ''''\<rparr>], pending = []\<rparr>) 1) = Inr (Some '''')"
    by (rule conjunct2)
  then show ?thesis unfolding h by simp
qed

subsection \<open>Claims about deletion and unknown ids\<close>

text \<open>
  Claim C6. For every delete request on an existing record, in a table whose ids are
  distinct and when the commit goes through, the record is removed: the rows with
  another id stay, in their order, and nothing is left pending; a lookup by the id
  returns no row, the table has exactly one row less, and the message is "User
  <username> deleted successfully!" with the username the record had before the
  deletion.
\<close>

theorem delete_removes_record:
  assumes "distinct (map id' t)" and "query_get t i = Inr (Some user)"
  shows "delete_profile None t i =
           (\<lparr>table = filter (\<lambda>u. id' u \<noteq> i) t, pending = []\<rparr>,
            [(''User '' @ username user @ '' deleted successfully!'', ''success'')],
            Redirect_index) \<and>
         query_get (table (fst (delete_profile None t i))) i = Inr None \<and>
         Suc (length (table (fst (delete_profile None t i)))) = length t \<and>
         set (table (fst (delete_profile None t i))) = set t - {user}"
proof -
  have d: "delete_profile None t i =
           (\<lparr>table = filter (\<lambda>u. id' u \<noteq> i) t, pending = []\<rparr>,
            [(''User '' @ username user @ '' deleted successfully!'', ''success'')],
            Redirect_index)"
    by (simp add: delete_found [OF assms(2)])
  then have f: "table (fst (delete_profile None t i)) = filter (\<lambda>u. id' u \<noteq> i) t"
    by simp
  from assms(2) have "int64 i" by (simp add: query_get_SomeD)
  then have "query_get (filter (\<lambda>u. id' u \<noteq> i) t) i = Inr None"
    by (rule query_get_filter)
  then show ?thesis
    unfolding f
    using d filter_key_length [OF assms] filter_key_set [OF assms]
    by (intro conjI)
qed

text \<open>The theorem on a table of two rows, of which the row 1 is deleted.\<close>

theorem delete_removes_record_witness:
  "delete_profile None
     [\<lparr>id' = 1, username = ''alice'', email = ''a@b.com'', first_name = ''A'',
       last_name = ''B'', bio = ''hi''\<rparr>,
      \<lparr>id' = 2, username = ''bobby'', email = ''b@b.com'', first_name = ''Bo'',
       last_name = ''By'', bio = ''''\<rparr>] 1 =
   (\<lparr>table =
       [\<lparr>id' = 2, username = ''bobby'', email = ''b@b.com'', first_name = ''Bo'',
         last_name = ''By'', bio = ''''\<rparr>],
     pending = []\<rparr>,
    [(''User alice deleted successfully!'', ''success'')], Redirect_index) \<and>
   view_profile
     [\<lparr>id' = 2, username = ''bobby'', email = ''b@b.com'', first_name = ''Bo'',
       last_name = ''By'', bio = ''''\<rparr>] 1 =
   (\<lparr>table =
       [\<lparr>id' = 2, username = ''bobby'', email = ''b@b.com'', first_name = ''Bo'',
         last_name = ''By'', bio = ''''\<rparr>],
     pending = []\<rparr>,
    [(''User not found.'', ''error'')], Redirect_index)"
proof -
  let ?a = "\<lparr>id' = 1, username = ''alice'', email = ''a@b.com'', first_name = ''A'',
       last_name = ''B'', bio = ''hi''\<rparr>"
  let ?b = "\<lparr>id' = 2, username = ''bobby'', email = ''b@b.com'', first_name = ''Bo'',
       last_name = ''By'', bio = ''''\<rparr>"
  have d: "distinct (map id' [?a, ?b])" by simp
  have q: "query_get [?a, ?b] 1 = Inr (Some ?a)" by (simp add: query_get_def int64_def)
  from delete_removes_record [OF d q]
  have "delete_profile None [?a, ?b] 1 =
      (\<lparr>table = filter (\<lambda>u. id' u \<noteq> 1) [?a, ?b], pending = []\<rparr>,
       [(''User '' @ username ?a @ '' deleted successfully!'', ''success'')], Redirect_index)"
    by (rule conjunct1)
  moreover have "view_profile [?b] 1 =
      (\<lparr>table = [?b], pending = []\<rparr>, [(''User not found.'', ''error'')], Redirect_index)"
    by (simp add: view_profile_def query_get_def int64_def begin_session_def)
  ultimately show ?thesis by simp
qed




subsection \<open>Claims about persistence failures and about the stored values\<close>

lemma validate_cases:
  obtains msg where "validate_user_input data = Inr (False, msg)"
  | "validate_user_input data = Inr (True, [])"
proof (cases "validate_user_input data")
  case (Inl e)
  then show ?thesis by (simp add: validate_no_exception)
next
  case (Inr p)
  obtain ok msg where p: "p = (ok, msg)" by (cases p)
  show ?thesis
  proof (cases ok)
    case True
    with Inr p validate_True_empty [of data msg] have "validate_user_input data = Inr (True, [])"
      by simp
    then show ?thesis by (rule that(2))
  next
    case False
    with Inr p show ?thesis by (simp add: that(1))
  qed
qed

lemma register_invalid:
  "validate_user_input (form_data form) = Inr (False, msg) \<Longrightarrow>
   register fault t POST form =
     (\<lparr>table = t, pending = []\<rparr>, [(msg, ''error'')],
      Render_register (Some (form_data form)))"
  by (simp add: register_def begin_session_def)

lemma edit_invalid:
  "query_get t i = Inr (Some user) \<Longrightarrow>
   validate_user_input (form_data form) = Inr (False, msg) \<Longrightarrow>
   edit_profile fault t i POST form =
     (\<lparr>table = t, pending = []\<rparr>, [(msg, ''error'')],
      Render_edit_profile user (Some (form_data form)))"
  by (simp add: edit_profile_def begin_session_def)

text \<open>
  When the commit raises, every handler leaves the table as it was and nothing pending.
  \<open>register\<close> lets no exception out, and neither do \<open>edit_profile\<close> and \<open>delete_profile\<close>
  at an id that the store takes.
\<close>

lemma register_fault_frame:
  "fst (register (Some e) t m form) = \<lparr>table = t, pending = []\<rparr> \<and>
   snd (snd (register fault t m form)) \<noteq> Uncaught x"
proof (cases m)
  case GET
  then show ?thesis by (simp add: register_def begin_session_def)
next
  case POST
  show ?thesis
  proof (cases "form_data form" rule: validate_cases)
    case (1 msg)
    then show ?thesis unfolding POST by (simp add: register_invalid)
  next
    case 2
    then have "valid_form form" by (simp add: valid_form_def)
    then show ?thesis unfolding POST by (cases fault) (simp_all add: register_POST_valid)
  qed
qed

lemma edit_fault_frame:
  "fst (edit_profile (Some e) t i m form) = \<lparr>table = t, pending = []\<rparr> \<and>
   (int64 i \<longrightarrow> snd (snd (edit_profile fault t i m form)) \<noteq> Uncaught x)"
proof (cases "query_get t i")
  case (Inl ex)
  then have "\<not> int64 i" by (simp add: query_get_Inl_iff)
  with Inl show ?thesis by (simp add: edit_profile_def begin_session_def)
next
  case (Inr found)
  show ?thesis
  proof (cases found)
    case None
    with Inr show ?thesis by (simp add: edit_profile_def begin_session_def)
  next
    case (Some user)
    with Inr have q: "query_get t i = Inr (Some user)" by simp
    show ?thesis
    proof (cases m)
      case GET
      with q show ?thesis by (simp add: edit_profile_def begin_session_def)
    next
      case POST
      show ?thesis
      proof (cases "form_data form" rule: validate_cases)
        case (1 msg)
        with q show ?thesis unfolding POST by (simp add: edit_invalid)
      next
        case 2
        then have "valid_form form" by (simp add: valid_form_def)
        with q show ?thesis unfolding POST by (cases fault) (simp_all add: edit_POST_valid)
      qed
    qed
  qed
qed

lemma delete_fault_frame:
  "fst (delete_profile (Some e) t i) = \<lparr>table = t, pending = []\<rparr> \<and>
   (int64 i \<longrightarrow> snd (snd (delete_profile fault t i)) \<noteq> Uncaught x)"
proof (cases "query_get t i")
  case (Inl ex)
  then have "\<not> int64 i" by (simp add: query_get_Inl_iff)
  with Inl show ?thesis by (simp add: delete_profile_def begin_session_def)
next
  case (Inr found)
  show ?thesis
  proof (cases found)
    case None
    with Inr show ?thesis by (simp add: delete_profile_def begin_session_def)
  next
    case (Some user)
    with Inr have "query_get t i = Inr (Some user)" by simp
    then show ?thesis by (cases fault) (simp_all add: delete_found)
  qed
qed

text \<open>
  Claim C8. For every registration, edit or delete request in which the commit raises
  an error with the text \<open>e\<close>: the failed commit leaves the attempted change registered
  in the session and the handler rolls it back, so that the session it leaves has the
  table as it was before the request and no pending change; the edit form is rendered
  with the attributes of the stored record, not the submitted ones; the flashed message
  is the handler's prefix followed by \<open>e\<close>, unaltered; and the handler returns a response
  (the empty registration form, the edit form, the redirect to the list), not an
  exception. More generally, with a raising commit every request leaves the table as it
  was and nothing pending.
\<close>

theorem persistence_failure_rolled_back:
  "(valid_form form \<and>
    (\<forall>u\<in>set t. username u \<noteq> form_get form ''username'') \<and>
    (\<forall>u\<in>set t. email u \<noteq> form_get form ''email'') \<longrightarrow>
      register (Some e) t POST form =
        (\<lparr>table = t, pending = []\<rparr>,
         [(''An error occurred during registration: '' @ e, ''error'')],
         Render_register None)) \<and>
   (query_get t i = Inr (Some user) \<and> valid_form form \<and>
    (form_get form ''username'' = username user \<or>
     (\<forall>u\<in>set t. username u \<noteq> form_get form ''username'')) \<and>
    (form_get form ''email'' = email user \<or>
     (\<forall>u\<in>set t. email u \<noteq> form_get form ''email'')) \<longrightarrow>
      edit_profile (Some e) t i POST form =
        (\<lparr>table = t, pending = []\<rparr>,
         [(''An error occurred while updating the profile: '' @ e, ''error'')],
         Render_edit_profile user None)) \<and>
   (query_get t i = Inr (Some user) \<longrightarrow>
      delete_profile (Some e) t i =
        (\<lparr>table = t, pending = []\<rparr>,
         [(''An error occurred while deleting the user: '' @ e, ''error'')],
         Redirect_index)) \<and>
   commit (Some e) (register_change c (begin_session t)) =
     Inl (e, \<lparr>table = t, pending = [c]\<rparr>) \<and>
   rollback \<lparr>table = t, pending = [c]\<rparr> = \<lparr>table = t, pending = []\<rparr> \<and>
   fst (register (Some e) t m form) = \<lparr>table = t, pending = []\<rparr> \<and>
   fst (edit_profile (Some e) t i m form) = \<lparr>table = t, pending = []\<rparr> \<and>
   fst (delete_profile (Some e) t i) = \<lparr>table = t, pending = []\<rparr> \<and>
   snd (snd (register fault t m form)) \<noteq> Uncaught x \<and>
   (int64 i \<longrightarrow>
      snd (snd (edit_profile fault t i m form)) \<noteq> Uncaught x \<and>
      snd (snd (delete_profile fault t i)) \<noteq> Uncaught x)"
proof -
  have r: "register (Some e) t POST form =
        (\<lparr>table = t, pending = []\<rparr>,
         [(''An error occurred during registration: '' @ e, ''error'')],
         Render_register None)"
    if "valid_form form \<and>
        (\<forall>u\<in>set t. username u \<noteq> form_get form ''username'') \<and>
        (\<forall>u\<in>set t. email u \<noteq> form_get form ''email'')"
    using that by (simp add: register_POST_valid)
  have ed: "edit_profile (Some e) t i POST form =
        (\<lparr>table = t, pending = []\<rparr>,
         [(''An error occurred while updating the profile: '' @ e, ''error'')],
         Render_edit_profile user None)"
    if "query_get t i = Inr (Some user) \<and> valid_form form \<and>
        (form_get form ''username'' = username user \<or>
         (\<forall>u\<in>set t. username u \<noteq> form_get form ''username'')) \<and>
        (form_get form ''email'' = email user \<or>
         (\<forall>u\<in>set t. email u \<noteq> form_get form ''email''))"
  proof -
    from that have q: "query_get t i = Inr (Some user)" and v: "valid_form form" by simp_all
    from that show ?thesis unfolding edit_POST_valid [OF q v] by auto
  qed
  have d: "delete_profile (Some e) t i =
        (\<lparr>table = t, pending = []\<rparr>,
         [(''An error occurred while deleting the user: '' @ e, ''error'')],
         Redirect_index)"
    if "query_get t i = Inr (Some user)"
    using that by (simp add: delete_found)
  have c: "commit (Some e) (register_change c (begin_session t)) =
      Inl (e, \<lparr>table = t, pending = [c]\<rparr>)"
    by (simp add: commit_def register_change_def begin_session_def)
  have b: "rollback \<lparr>table = t, pending = [c]\<rparr> = \<lparr>table = t, pending = []\<rparr>"
    by (rule rollback_pending)
  from r ed d c b register_fault_frame [of e t m form fault x]
    edit_fault_frame [of e t i m form fault x] delete_fault_frame [of e t i fault x]
  show ?thesis by (intro conjI impI) blast+
qed

text \<open>
  The theorem on a registration, an edit and a deletion whose commits raise with the
  text \<open>database is locked\<close>.
\<close>

theorem persistence_failure_rolled_back_witness:
  "register (Some ''database is locked'')
     [\<lparr>id' = 1, username = ''alice'', email = ''a@b.com'', first_name = ''A'',
       last_name = ''B'', bio = ''hi''\<rparr>]
     POST
     [''username'' \<mapsto> ''bobby'', ''email'' \<mapsto> ''b@b.com'', ''first_name'' \<mapsto> ''Bo'',
      ''last_name'' \<mapsto> ''By''] =
   (\<lparr>table =
       [\<lparr>id' = 1, username = ''alice'', email = ''a@b.com'', first_name = ''A'',
         last_name = ''B'', bio = ''hi''\<rparr>],
     pending = []\<rparr>,
    [(''An error occurred during registration: database is locked'', ''error'')],
    Render_register None) \<and>
   edit_profile (Some ''database is locked'')
     [\<lparr>id' = 1, username = ''alice'', email = ''a@b.com'', first_name = ''A'',
       last_name = ''B'', bio = ''hi''\<rparr>]
     1 POST
     [''username'' \<mapsto> ''bobby'', ''email'' \<mapsto> ''b@b.com'', ''first_name'' \<mapsto> ''Bo'',
      ''last_name'' \<mapsto> ''By''] =
   (\<lparr>table =
       [\<lparr>id' = 1, username = ''alice'', email = ''a@b.com'', first_name = ''A'',
         last_name = ''B'', bio = ''hi''\<rparr>],
     pending = []\<rparr>,
    [(''An error occurred while updating the profile: database is locked'', ''error'')],
    Render_edit_profile
      \<lparr>id' = 1, username = ''alice'', email = ''a@b.com'', first_name = ''A'',
       last_name = ''B'', bio = ''hi''\<rparr> None) \<and>
   delete_profile (Some ''database is locked'')
     [\<lparr>id' = 1, username = ''alice'', email = ''a@b.com'', first_name = ''A'',
       last_name = ''B'', bio = ''hi''\<rparr>] 1 =
   (\<lparr>table =
       [\<lparr>id' = 1, username = ''alice'', email = ''a@b.com'', first_name = ''A'',
         last_name = ''B'', bio = ''hi''\<rparr>],
     pending = []\<rparr>,
    [(''An error occurred while deleting the user: database is locked'', ''error'')],
    Redirect_index)"
proof -
  let ?a = "\<lparr>id' = 1, username = ''alice'', email = ''a@b.com'', first_name = ''A'',
       last_name = ''B'', bio = ''hi''\<rparr>"
  let ?f = "[''username'' \<mapsto> ''bobby'', ''email'' \<mapsto> ''b@b.com'', ''first_name'' \<mapsto> ''Bo'',
      ''last_name'' \<mapsto> ''By'']"
  have v: "valid_form ?f" by (simp add: valid_form_def eval_validate)
  have q: "query_get [?a] 1 = Inr (Some ?a)" by (simp add: query_get_def int64_def)
  have n: "(\<forall>u\<in>set [?a]. username u \<noteq> form_get ?f ''username'') \<and>
      (\<forall>u\<in>set [?a]. email u \<noteq> form_get ?f ''email'')"
    by (simp add: form_get_def)
  note th = persistence_failure_rolled_back
    [of ?f "[?a]" "''database is locked''" 1 ?a "Delete 1" POST None IndexError]
  from th v n have 1: "register (Some ''database is locked'') [?a] POST ?f =
      (\<lparr>table = [?a], pending = []\<rparr>,
       [(''An error occurred during registration: '' @ ''database is locked'', ''error'')],
       Render_register None)"
    by blast
  from th v n q have 2: "edit_profile (Some ''database is locked'') [?a] 1 POST ?f =
      (\<lparr>table = [?a], pending = []\<rparr>,
       [(''An error occurred while updating the profile: '' @ ''database is locked'', ''error'')],
       Render_edit_profile ?a None)"
    by blast
  from th q have 3: "delete_profile (Some ''database is locked'') [?a] 1 =
      (\<lparr>table = [?a], pending = []\<rparr>,
       [(''An error occurred while deleting the user: '' @ ''database is locked'', ''error'')],
       Redirect_index)"
    by blast
  from 1 2 3 show ?thesis by simp
qed

text \<open>
  Claim C9. For every successful registration or edit, the stored values are the
  submitted strings as they came, untrimmed: validation trims for its checks only, and
  the uniqueness checks compare the untrimmed strings. So the username \<open>" abc "\<close>, whose
  trimmed length is 3, is accepted and stored with its spaces, next to a record whose
  username is \<open>"abc"\<close>.
\<close>

theorem raw_values_stored:
  "(valid_form form \<and>
    (\<forall>u\<in>set t. username u \<noteq> form_get form ''username'') \<and>
    (\<forall>u\<in>set t. email u \<noteq> form_get form ''email'') \<longrightarrow>
      fst (register None t POST form) =
        \<lparr>table =
           t @ [\<lparr>id' = fresh_id t, username = form_get form ''username'',
                  email = form_get form ''email'',
                  first_name = form_get form ''first_name'',
                  last_name = form_get form ''last_name'',
                  bio = form_get form ''bio''\<rparr>],
         pending = []\<rparr>) \<and>
   (query_get t i = Inr (Some user) \<and> valid_form form \<and>
    (form_get form ''username'' = username user \<or>
     (\<forall>u\<in>set t. username u \<noteq> form_get form ''username'')) \<and>
    (form_get form ''email'' = email user \<or>
     (\<forall>u\<in>set t. email u \<noteq> form_get form ''email'')) \<longrightarrow>
      query_get (table (fst (edit_profile None t i POST form))) i =
        Inr (Some \<lparr>id' = i, username = form_get form ''username'',
                   email = form_get form ''email'',
                   first_name = form_get form ''first_name'',
                   last_name = form_get form ''last_name'',
                   bio = form_get form ''bio''\<rparr>)) \<and>
   strip '' abc '' = ''abc'' \<and>
   valid_form [''username'' \<mapsto> '' abc '', ''email'' \<mapsto> '' x@y.z '', ''first_name'' \<mapsto> ''A'',
               ''last_name'' \<mapsto> ''B''] \<and>
   register None
     [\<lparr>id' = 1, username = ''abc'', email = ''x@y.z'', first_name = ''A'',
       last_name = ''B'', bio = ''hi''\<rparr>]
     POST
     [''username'' \<mapsto> '' abc '', ''email'' \<mapsto> '' x@y.z '', ''first_name'' \<mapsto> ''A'',
      ''last_name'' \<mapsto> ''B''] =
   (\<lparr>table =
       [\<lparr>id' = 1, username = ''abc'', email = ''x@y.z'', first_name = ''A'',
         last_name = ''B'', bio = ''hi''\<rparr>,
        \<lparr>id' = 2, username = '' abc '', email = '' x@y.z '', first_name = ''A'',
         last_name = ''B'', bio = ''''\<rparr>],
     pending = []\<rparr>,
    [(''User  abc  registered successfully!'', ''success'')], Redirect_index)"
proof -
  have r: "fst (register None t POST form) =
        \<lparr>table =
           t @ [\<lparr>id' = fresh_id t, username = form_get form ''username'',
                  email = form_get form ''email'',
                  first_name = form_get form ''first_name'',
                  last_name = form_get form ''last_name'',
                  bio = form_get form ''bio''\<rparr>],
         pending = []\<rparr>"
    if "valid_form form \<and>
        (\<forall>u\<in>set t. username u \<noteq> form_get form ''username'') \<and>
        (\<forall>u\<in>set t. email u \<noteq> form_get form ''email'')"
    using that by (simp add: register_POST_valid)
  have ed: "query_get (table (fst (edit_profile None t i POST form))) i =
        Inr (Some \<lparr>id' = i, username = form_get form ''username'',
                   email = form_get form ''email'',
                   first_name = form_get form ''first_name'',
                   last_name = form_get form ''last_name'',
                   bio = form_get form ''bio''\<rparr>)"
    if c: "query_get t i = Inr (Some user) \<and> valid_form form \<and>
        (form_get form ''username'' = username user \<or>
         (\<forall>u\<in>set t. username u \<noteq> form_get form ''username'')) \<and>
        (form_get form ''email'' = email user \<or>
         (\<forall>u\<in>set t. email u \<noteq> form_get form ''email''))"
  proof -
    from c have q: "query_get t i = Inr (Some user)" and v: "valid_form form" by simp_all
    from c have "table (fst (edit_profile None t i POST form)) =
        map (\<lambda>u. if id' u = i then updated form u else u) t"
      unfolding edit_POST_valid [OF q v] by auto
    moreover from q have "id' user = i" by (simp add: query_get_SomeD)
    ultimately show ?thesis
      using query_get_map [where f = "updated form", OF q id_updated] by (simp add: updated_row)
  qed
  have s: "strip '' abc '' = ''abc''" by (simp add: strip_def isspace_def)
  have v: "valid_form [''username'' \<mapsto> '' abc '', ''email'' \<mapsto> '' x@y.z '',
      ''first_name'' \<mapsto> ''A'', ''last_name'' \<mapsto> ''B'']"
    by (simp add: valid_form_def eval_validate)
  have x: "register None
     [\<lparr>id' = 1, username = ''abc'', email = ''x@y.z'', first_name = ''A'',
       last_name = ''B'', bio = ''hi''\<rparr>]
     POST
     [''username'' \<mapsto> '' abc '', ''email'' \<mapsto> '' x@y.z '', ''first_name'' \<mapsto> ''A'',
      ''last_name'' \<mapsto> ''B''] =
   (\<lparr>table =
       [\<lparr>id' = 1, username = ''abc'', email = ''x@y.z'', first_name = ''A'',
         last_name = ''B'', bio = ''hi''\<rparr>,
        \<lparr>id' = 2, username = '' abc '', email = '' x@y.z '', first_name = ''A'',
         last_name = ''B'', bio = ''''\<rparr>],
     pending = []\<rparr>,
    [(''User  abc  registered successfully!'', ''success'')], Redirect_index)"
    by (simp add: eval_handlers eval_validate)
  from r ed s v x show ?thesis by (intro conjI impI) blast+
qed

text \<open>
  The theorem on an edit that gives the record a username and an email with spaces
  around them: the lookup returns them with the spaces.
\<close>

theorem raw_values_stored_witness:
  "query_get
     (table (fst (edit_profile None
       [\<lparr>id' = 1, username = ''abc'', email = ''x@y.z'', first_name = ''A'',
         last_name = ''B'', bio = ''hi''\<rparr>]
       1 POST
       [''username'' \<mapsto> '' abc '', ''email'' \<mapsto> ''x@y.z  '', ''first_name'' \<mapsto> '' A'',
        ''last_name'' \<mapsto> ''B '', ''bio'' \<mapsto> '' '']))) 1 =
   Inr (Some \<lparr>id' = 1, username = '' abc '', email = ''x@y.z  '', first_name = '' A'',
         last_name = ''B '', bio = '' ''\<rparr>)"
proof -
  let ?a = "\<lparr>id' = 1, username = ''abc'', email = ''x@y.z'', first_name = ''A'',
         last_name = ''B'', bio = ''hi''\<rparr>"
  let ?f = "[''username'' \<mapsto> '' abc '', ''email'' \<mapsto> ''x@y.z  '', ''first_name'' \<mapsto> '' A'',
        ''last_name'' \<mapsto> ''B '', ''bio'' \<mapsto> '' '']"
  have q: "query_get [?a] 1 = Inr (Some ?a)" by (simp add: query_get_def int64_def)
  have v: "valid_form ?f" by (simp add: valid_form_def eval_validate)
  have n: "(form_get ?f ''username'' = username ?a \<or>
       (\<forall>u\<in>set [?a]. username u \<noteq> form_get ?f ''username'')) \<and>
      (form_get ?f ''email'' = email ?a \<or>
       (\<forall>u\<in>set [?a]. email u \<noteq> form_get ?f ''email''))"
    by (simp add: form_get_def)
  have g: "form_get ?f ''username'' = '' abc ''" "form_get ?f ''email'' = ''x@y.z  ''"
    "form_get ?f ''first_name'' = '' A''" "form_get ?f ''last_name'' = ''B ''"
    "form_get ?f ''bio'' = '' ''"
    by (simp_all add: form_get_def)
  from raw_values_stored [of ?f "[?a]" 1 ?a] q v n
  have "query_get (table (fst (edit_profile None [?a] 1 POST ?f))) 1 =
      Inr (Some \<lparr>id' = 1, username = form_get ?f ''username'', email = form_get ?f ''email'',
            first_name = form_get ?f ''first_name'', last_name = form_get ?f ''last_name'',
            bio = form_get ?f ''bio''\<rparr>)"
    by blast
  then show ?thesis unfolding g .
qed

subsection \<open>The primary key\<close>

text \<open>
  Every write keeps the ids of the table distinct, so the handlers keep them distinct:
  the table a handler leaves is the table it received, or that table after one write.
\<close>

lemma flush_distinct:
  assumes "distinct (map id' t)"
  shows "distinct (map id' (flush c t))"
proof (cases c)
  case (Insert un em fn ln b)
  with assms fresh_id_fresh [of t] show ?thesis by simp
next
  case (Update i un em fn ln b)
  have "map id' (flush c t) = map id' t"
    unfolding Update by (induction t) simp_all
  with assms show ?thesis by simp
next
  case (Delete i)
  with assms show ?thesis by (simp add: distinct_map_filter)
qed

lemma register_table:
  "table (fst (register fault t m form)) = t \<or>
   table (fst (register fault t m form)) =
     flush (Insert (form_get form ''username'') (form_get form ''email'')
       (form_get form ''first_name'') (form_get form ''last_name'') (form_get form ''bio'')) t"
proof (cases m)
  case GET
  then show ?thesis by (simp add: register_def begin_session_def)
next
  case POST
  show ?thesis
  proof (cases "form_data form" rule: validate_cases)
    case (1 msg)
    then show ?thesis unfolding POST by (simp add: register_invalid)
  next
    case 2
    then have "valid_form form" by (simp add: valid_form_def)
    then show ?thesis unfolding POST by (cases fault) (simp_all add: register_POST_valid)
  qed
qed

lemma edit_table:
  "table (fst (edit_profile fault t i m form)) = t \<or>
   table (fst (edit_profile fault t i m form)) =
     flush (Update i (form_get form ''username'') (form_get form ''email'')
       (form_get form ''first_name'') (form_get form ''last_name'') (form_get form ''bio'')) t"
proof (cases "query_get t i")
  case (Inl ex)
  then show ?thesis by (simp add: edit_profile_def begin_session_def)
next
  case (Inr found)
  show ?thesis
  proof (cases found)
    case None
    with Inr show ?thesis by (simp add: edit_profile_def begin_session_def)
  next
    case (Some user)
    with Inr have q: "query_get t i = Inr (Some user)" by simp
    show ?thesis
    proof (cases m)
      case GET
      with q show ?thesis by (simp add: edit_profile_def begin_session_def)
    next
      case POST
      show ?thesis
      proof (cases "form_data form" rule: validate_cases)
        case (1 msg)
        with q show ?thesis unfolding POST by (simp add: edit_invalid)
      next
        case 2
        then have "valid_form form" by (simp add: valid_form_def)
        with q show ?thesis
          unfolding POST by (cases fault) (simp_all add: edit_POST_valid updated_def)
      qed
    qed
  qed
qed

lemma delete_table:
  "table (fst (delete_profile fault t i)) = t \<or>
   table (fst (delete_profile fault t i)) = flush (Delete i) t"
proof (cases "query_get t i")
  case (Inl ex)
  then show ?thesis by (simp add: delete_profile_def begin_session_def)
next
  case (Inr found)
  show ?thesis
  proof (cases found)
    case None
    with Inr show ?thesis by (simp add: delete_profile_def begin_session_def)
  next
    case (Some user)
    with Inr have "query_get t i = Inr (Some user)" by simp
    then show ?thesis by (cases fault) (simp_all add: delete_found)
  qed
qed

lemma handlers_keep_ids_distinct:
  assumes "distinct (map id' t)"
  shows "distinct (map id' (table (fst (register fault t m form))))"
    and "distinct (map id' (table (fst (edit_profile fault t i m form))))"
    and "distinct (map id' (table (fst (delete_profile fault t i))))"
proof -
  note d = flush_distinct [OF assms]
  from register_table [of fault t m form] assms d
  show "distinct (map id' (table (fst (register fault t m form))))" by metis
  from edit_table [of fault t i m form] assms d
  show "distinct (map id' (table (fst (edit_profile fault t i m form))))" by metis
  from delete_table [of fault t i] assms d
  show "distinct (map id' (table (fst (delete_profile fault t i))))" by metis
qed

end
